theory Spec2Isabelle
  imports Complex_Main "HOL-Library.Multiset" "HOL-Library.Char_ord" "HOL-Library.List_Lexorder"
begin

section \<open>fizzezpy: interval grouping and correlation unstacking\<close>

text \<open>
  A shallow embedding of \<^verbatim>\<open>src/modules/math_utils.py\<close> and
  \<^verbatim>\<open>src/modules/data_proc_utils.py\<close>.

  Integers are modelled as \<open>int\<close>. The elements of \<open>arr\<close> are \<open>int64\<close> values once
  NumPy holds them, and \<open>np.diff\<close> subtracts them with wrap-around, which is written
  out (\<open>wrap64\<close>). Exceptions are values of \<open>error\<close>. The library behaviour modelled is
  that of NumPy 1.24 and later.
\<close>

subsection \<open>NumPy arrays of indices\<close>

text \<open>
  \<^verbatim>\<open>np.hstack([-1, bound_idx, len(arr) - 1])\<close> concatenates three arrays. The middle one
  comes from a Python list; an empty list becomes an empty \<open>float64\<close> array, and
  concatenating it with integer arrays promotes the result to \<open>float64\<close>. The element
  type decides whether a value can later be used as an index, so it is part of the model.
  The elements themselves are integer-valued in both cases and are kept as \<open>int\<close>.
\<close>

datatype dtype = Int64 | Float64

datatype error =
  NonIntegerIndex  \<comment> \<open>indexing with a \<open>numpy.float64\<close>: TypeError on a list, IndexError on an ndarray\<close>
| IndexOutOfRange  \<comment> \<open>IndexError: index out of range\<close>
| AttributeError  \<comment> \<open>a method called on an object of another kind\<close>
| ValueError  \<comment> \<open>\<open>np.array\<close> on sequences of different lengths\<close>

datatype result =
  BoundIdx dtype "(int \<times> int) list"  \<comment> \<open>the two-column array of (start, end) rows\<close>
| GroupNums "int list list"  \<comment> \<open>the array of \<open>np.arange\<close> runs\<close>

text \<open>
  \<^verbatim>\<open>np.array([...])\<close> over the list of runs. Runs of one common length make a
  two-dimensional array. Runs of different lengths are refused with a ValueError
  (NumPy before 1.24 built an array of arrays from them, which is what the docstring
  shows).
\<close>

definition np_array :: "int list list \<Rightarrow> error + int list list" where
  "np_array runs =
     (case runs of
        [] \<Rightarrow> Inr []
      | r # rs \<Rightarrow>
          if list_all (\<lambda>q. length q = length r) rs then Inr runs else Inl ValueError)"

text \<open>The value of an \<open>int64\<close> computation whose exact result is \<open>z\<close>.\<close>

definition wrap64 :: "int \<Rightarrow> int" where
  "wrap64 z = (z + 2 ^ 63) mod 2 ^ 64 - 2 ^ 63"

fun np_diff :: "int list \<Rightarrow> int list" where
  "np_diff (x # y # ys) = wrap64 (y - x) # np_diff (y # ys)"
| "np_diff _ = []"

definition np_hstack :: "int \<Rightarrow> int list \<Rightarrow> int \<Rightarrow> dtype \<times> int list" where
  "np_hstack a bs c = (if bs = [] then Float64 else Int64, a # bs @ [c])"

text \<open>\<^verbatim>\<open>np.vstack([b[:-1] + 1, b[1:]]).T\<close>: row \<open>k\<close> is \<open>(b[k] + 1, b[k + 1])\<close>.\<close>

definition np_vstack_T :: "int list \<Rightarrow> (int \<times> int) list" where
  "np_vstack_T b = zip (map (\<lambda>x. x + 1) (butlast b)) (tl b)"

text \<open>
  \<^verbatim>\<open>arr[i]\<close> for an index taken from the index array: a \<open>float64\<close> index is refused,
  a negative integer index counts from the end, anything else out of range raises.
\<close>

definition getitem :: "int list \<Rightarrow> dtype \<Rightarrow> int \<Rightarrow> error + int" where
  "getitem arr dt i =
     (if dt = Float64 then Inl NonIntegerIndex
      else let n = int (length arr); j = (if i < 0 then n + i else i)
           in if 0 \<le> j \<and> j < n then Inr (arr ! nat j) else Inl IndexOutOfRange)"

text \<open>\<^verbatim>\<open>np.arange(arr[_s], arr[_e] + 1)\<close> for one row; \<open>arr[_s]\<close> is evaluated first.\<close>

definition arange_row :: "int list \<Rightarrow> dtype \<Rightarrow> int \<times> int \<Rightarrow> error + int list" where
  "arange_row arr dt p =
     (case getitem arr dt (fst p) of
        Inl err \<Rightarrow> Inl err
      | Inr lo \<Rightarrow>
          (case getitem arr dt (snd p) of
             Inl err \<Rightarrow> Inl err
           | Inr hi \<Rightarrow> Inr [lo..hi]))"

text \<open>The list comprehension over the rows: the first exception ends it.\<close>

fun arange_rows :: "int list \<Rightarrow> dtype \<Rightarrow> (int \<times> int) list \<Rightarrow> error + int list list" where
  "arange_rows arr dt [] = Inr []"
| "arange_rows arr dt (p # ps) =
     (case arange_row arr dt p of
        Inl err \<Rightarrow> Inl err
      | Inr r \<Rightarrow>
          (case arange_rows arr dt ps of
             Inl err \<Rightarrow> Inl err
           | Inr rs \<Rightarrow> Inr (r # rs)))"

subsection \<open>\<open>get_consecutive_num_intervals\<close> (math\_utils.py)\<close>

text \<open>
  \<^verbatim>\<open>
  bound_idx = [_i for _i, _diff in enumerate(np.diff(arr)) if not _diff == 1]
  bound_idx = np.hstack([-1, bound_idx, len(arr) - 1])
  bound_idx = np.vstack([bound_idx[:-1] + 1, bound_idx[1:]]).T
  if ret_idx:
      return bound_idx
  else:
      return np.array([np.arange(arr[_s], arr[_e]+1) for _s, _e in bound_idx])
  \<close>
\<close>

definition boundaries :: "int list \<Rightarrow> int list" where
  "boundaries arr =
     map (\<lambda>p. int (fst p)) (filter (\<lambda>p. \<not> snd p = 1) (enumerate 0 (np_diff arr)))"

definition get_consecutive_num_intervals :: "int list \<Rightarrow> bool \<Rightarrow> error + result" where
  "get_consecutive_num_intervals arr ret_idx =
     (let bound_idx = boundaries arr;
          (dt, stacked) = np_hstack (- 1) bound_idx (int (length arr) - 1);
          bound_idx = np_vstack_T stacked
      in if ret_idx then Inr (BoundIdx dt bound_idx)
         else (case arange_rows arr dt bound_idx of
                 Inl err \<Rightarrow> Inl err
               | Inr runs \<Rightarrow>
                   (case np_array runs of
                      Inl err \<Rightarrow> Inl err
                    | Inr a \<Rightarrow> Inr (GroupNums a))))"

subsection \<open>\<open>get_consecutive_num_intervals\<close> (data\_proc\_utils.py)\<close>

text \<open>The second module defines the function again, statement by statement.\<close>

definition boundaries_dp :: "int list \<Rightarrow> int list" where
  "boundaries_dp arr =
     map (\<lambda>p. int (fst p)) (filter (\<lambda>p. \<not> snd p = 1) (enumerate 0 (np_diff arr)))"

definition get_consecutive_num_intervals_dp :: "int list \<Rightarrow> bool \<Rightarrow> error + result" where
  "get_consecutive_num_intervals_dp arr ret_idx =
     (let bound_idx = boundaries_dp arr;
          (dt, stacked) = np_hstack (- 1) bound_idx (int (length arr) - 1);
          bound_idx = np_vstack_T stacked
      in if ret_idx then Inr (BoundIdx dt bound_idx)
         else (case arange_rows arr dt bound_idx of
                 Inl err \<Rightarrow> Inl err
               | Inr runs \<Rightarrow>
                   (case np_array runs of
                      Inl err \<Rightarrow> Inl err
                    | Inr a \<Rightarrow> Inr (GroupNums a))))"

subsection \<open>pandas tables\<close>

text \<open>
  A correlation matrix is a \<open>DataFrame\<close>: row labels, column labels and a rectangular
  block of values, \<open>df_values d ! i ! j\<close> being row \<open>i\<close>, column \<open>j\<close>. Labels are
  strings, ordered as Python orders them (code point by code point, a proper prefix
  first). Entries are real numbers, so a missing value (NaN) is not an entry.
\<close>

type_synonym label = string

record dataframe =
  df_index :: "label list"
  df_columns :: "label list"
  df_values :: "real list list"

text \<open>A \<open>Series\<close> over a two-level index: each entry is ((level 0, level 1), value).\<close>

type_synonym series = "((label \<times> label) \<times> real) list"

datatype colname = Str string | Num int | NoName

text \<open>
  The long-form table: the column labels, and the rows, each with its row number
  (the table's index), its two labels and its value.
\<close>

record table =
  tb_columns :: "colname list"
  tb_rows :: "(nat \<times> label \<times> label \<times> real) list"

text \<open>
  \<^verbatim>\<open>corr.unstack()\<close> on a frame with a flat index: one entry per cell, column by column,
  indexed by (column label, row label). This is the result for labels that do not
  repeat, which is what \<open>corr_matrix\<close> below asks of the input; pandas refuses to
  reshape a frame in which a label repeats.
\<close>

definition unstack :: "dataframe \<Rightarrow> series" where
  "unstack corr =
     concat (map (\<lambda>jc. map (\<lambda>ir. ((snd jc, snd ir), df_values corr ! fst ir ! fst jc))
                          (enumerate 0 (df_index corr)))
                 (enumerate 0 (df_columns corr)))"

text \<open>
  \<^verbatim>\<open>Series.sort_values(ascending=...)\<close> sorts with NumPy's quicksort, which lies outside
  the repository and fixes no order among equal values. The model takes the sorting
  function as a parameter; \<open>sorts_values\<close> is all that is assumed of it: the result is a
  rearrangement of the entries, ordered by value in the requested direction.
\<close>

definition in_order :: "bool \<Rightarrow> real \<Rightarrow> real \<Rightarrow> bool" where
  "in_order ascending v w = (if ascending then v \<le> w else w \<le> v)"

definition sorts_values :: "(bool \<Rightarrow> series \<Rightarrow> series) \<Rightarrow> bool" where
  "sorts_values sort_values \<longleftrightarrow>
     (\<forall>ascending s. mset (sort_values ascending s) = mset s
        \<and> sorted_wrt (\<lambda>a b. in_order ascending (snd a) (snd b)) (sort_values ascending s))"

text \<open>One such function: a stable ascending sort, reversed for the descending order.\<close>

definition sort_values_stable :: "bool \<Rightarrow> series \<Rightarrow> series" where
  "sort_values_stable ascending s =
     (if ascending then sort_key snd s else rev (sort_key snd s))"

text \<open>\<^verbatim>\<open>to_frame()\<close>: a one-column frame; the column is labelled \<open>0\<close>.\<close>

definition to_frame :: "series \<Rightarrow> colname \<times> series" where
  "to_frame s = (Num 0, s)"

text \<open>
  \<^verbatim>\<open>reset_index(drop=False)\<close>: the two unnamed index levels become the columns
  \<open>level_0\<close> and \<open>level_1\<close>; the rows are numbered from 0.
\<close>

definition reset_index_keep :: "colname \<times> series \<Rightarrow> table" where
  "reset_index_keep f =
     \<lparr>tb_columns = [Str ''level_0'', Str ''level_1'', fst f],
      tb_rows = map (\<lambda>ie. (fst ie, fst (fst (snd ie)), snd (fst (snd ie)), snd (snd ie)))
                    (enumerate 0 (snd f))\<rparr>"

text \<open>\<^verbatim>\<open>query('level_0 != level_1')\<close>: the rows keep their numbers.\<close>

definition query_ne :: "table \<Rightarrow> table" where
  "query_ne t = t\<lparr>tb_rows := filter (\<lambda>r. fst (snd r) \<noteq> fst (snd (snd r))) (tb_rows t)\<rparr>"

text \<open>\<^verbatim>\<open>df_corr[['level_0', 'level_1']]\<close>: the two label columns.\<close>

definition label_cols :: "table \<Rightarrow> (nat \<times> label \<times> label) list" where
  "label_cols t = map (\<lambda>r. (fst r, fst (snd r), fst (snd (snd r)))) (tb_rows t)"

text \<open>\<^verbatim>\<open>.apply(sorted, 1)\<close>: each row's two labels as a sorted list.\<close>

definition apply_sorted :: "(nat \<times> label \<times> label) list \<Rightarrow> (nat \<times> label list) list" where
  "apply_sorted cols = map (\<lambda>r. (fst r, sort [fst (snd r), snd (snd r)])) cols"

text \<open>
  \<^verbatim>\<open>.astype(str)\<close> writes each sorted list as text. Python writes a list of strings
  so that it can be read back, so two lists have the same text only when they are equal;
  the model keeps the list itself as the key.
\<close>

definition astype_str :: "(nat \<times> label list) list \<Rightarrow> (nat \<times> label list) list" where
  "astype_str s = s"

text \<open>\<^verbatim>\<open>.duplicated()\<close>: true at every entry whose value occurred earlier.\<close>

fun duplicated_from :: "'a list \<Rightarrow> (nat \<times> 'a) list \<Rightarrow> (nat \<times> bool) list" where
  "duplicated_from seen [] = []"
| "duplicated_from seen (x # xs) = (fst x, snd x \<in> set seen) # duplicated_from (snd x # seen) xs"

definition duplicated :: "(nat \<times> 'a) list \<Rightarrow> (nat \<times> bool) list" where
  "duplicated s = duplicated_from [] s"

definition invert :: "(nat \<times> bool) list \<Rightarrow> (nat \<times> bool) list" where
  "invert m = map (\<lambda>e. (fst e, \<not> snd e)) m"

text \<open>
  \<^verbatim>\<open>df_corr[dup_mask]\<close>: the mask has the table's own row numbers, so it selects by
  position.
\<close>

definition getitem_mask :: "table \<Rightarrow> (nat \<times> bool) list \<Rightarrow> table" where
  "getitem_mask t m = t\<lparr>tb_rows := map fst (filter (\<lambda>rm. snd (snd rm)) (zip (tb_rows t) m))\<rparr>"

definition set_columns :: "table \<Rightarrow> colname list \<Rightarrow> table" where
  "set_columns t cs = t\<lparr>tb_columns := cs\<rparr>"

text \<open>\<^verbatim>\<open>reset_index(drop=True)\<close>: the rows are numbered from 0 again.\<close>

definition reset_index_drop :: "table \<Rightarrow> table" where
  "reset_index_drop t =
     t\<lparr>tb_rows := map (\<lambda>ir. (fst ir, snd (snd ir))) (enumerate 0 (tb_rows t))\<rparr>"

definition name_of :: "string option \<Rightarrow> colname" where
  "name_of n = (case n of None \<Rightarrow> NoName | Some x \<Rightarrow> Str x)"

subsection \<open>\<open>unstack_corr_df\<close> (data\_proc\_utils.py)\<close>

text \<open>
  \<^verbatim>\<open>
  corr_uns = corr.unstack()
  corr_uns_sorted = corr_uns.sort_values(ascending=ascending)
  df_corr = corr_uns_sorted.to_frame()
  df_corr.reset_index(drop=False, inplace=True)
  df_corr = df_corr.query('level_0 != level_1')
  df_corr_cols = df_corr[['level_0', 'level_1']]
  dup_mask = ~df_corr_cols.apply(sorted, 1).astype(str).duplicated()
  df_corr = df_corr[dup_mask]
  df_corr.columns = [col_name_1, col_name_2, 'corr']
  df_corr.reset_index(drop=True, inplace=True)
  return df_corr
  \<close>
  First the table the function computes, as a function of the matrix.
\<close>

definition unstack_corr_df ::
  "(bool \<Rightarrow> series \<Rightarrow> series) \<Rightarrow> dataframe \<Rightarrow> bool \<Rightarrow> string option \<Rightarrow> string option \<Rightarrow> table" where
  "unstack_corr_df sort_values corr ascending col_name_1 col_name_2 =
     (let corr_uns = unstack corr;
          corr_uns_sorted = sort_values ascending corr_uns;
          df_corr = to_frame corr_uns_sorted;
          df_corr = reset_index_keep df_corr;
          df_corr = query_ne df_corr;
          df_corr_cols = label_cols df_corr;
          dup_mask = invert (duplicated (astype_str (apply_sorted df_corr_cols)));
          df_corr = getitem_mask df_corr dup_mask;
          df_corr = set_columns df_corr [name_of col_name_1, name_of col_name_2, Str ''corr''];
          df_corr = reset_index_drop df_corr
      in df_corr)"

text \<open>The rows of the returned table without their row numbers: (label, label, corr).\<close>

definition edges :: "table \<Rightarrow> (label \<times> label \<times> real) list" where
  "edges t = map snd (tb_rows t)"

text \<open>
  What the claims assume of the input: a rectangular frame whose rows and columns carry
  the same distinct labels, equal to its transpose.
\<close>

definition wf_frame :: "dataframe \<Rightarrow> bool" where
  "wf_frame d \<longleftrightarrow>
     length (df_values d) = length (df_index d)
     \<and> list_all (\<lambda>row. length row = length (df_columns d)) (df_values d)"

definition symmetric :: "dataframe \<Rightarrow> bool" where
  "symmetric d \<longleftrightarrow>
     df_index d = df_columns d
     \<and> list_all (\<lambda>i. list_all (\<lambda>j. df_values d ! i ! j = df_values d ! j ! i)
                               [0..<length (df_columns d)])
                [0..<length (df_columns d)]"

definition corr_matrix :: "dataframe \<Rightarrow> bool" where
  "corr_matrix d \<longleftrightarrow> wf_frame d \<and> distinct (df_columns d) \<and> symmetric d"

text \<open>
  \<^verbatim>\<open>corr[a][b]\<close>: column \<open>a\<close>, then row \<open>b\<close>; \<open>None\<close> is the KeyError of a label that
  is not there.
\<close>

fun position :: "'a \<Rightarrow> 'a list \<Rightarrow> nat option" where
  "position x [] = None"
| "position x (y # ys) = (if x = y then Some 0 else map_option Suc (position x ys))"

definition entry :: "dataframe \<Rightarrow> label \<Rightarrow> label \<Rightarrow> real option" where
  "entry corr a b =
     (case position a (df_columns corr) of
        None \<Rightarrow> None
      | Some j \<Rightarrow>
          (case position b (df_index corr) of
             None \<Rightarrow> None
           | Some i \<Rightarrow> Some (df_values corr ! i ! j)))"

subsection \<open>\<open>unstack_corr_df\<close> over a store of objects\<close>

text \<open>
  Python variables hold references, and three statements of the function change an
  object in place (\<^verbatim>\<open>inplace=True\<close>, and the assignment to \<^verbatim>\<open>df_corr.columns\<close>). To
  say what happens to the caller's matrix, the same statements are run over a store:
  a list of objects, a reference being a position in it. Every pandas call that
  returns an object allocates a new one; an in-place call replaces the object at the
  reference it is called on.
\<close>

datatype pyobj =
  DataFrame dataframe
| Series series
| OneColumn "colname \<times> series"
| Table table
| LabelCols "(nat \<times> label \<times> label) list"
| Mask "(nat \<times> bool) list"

type_synonym store = "pyobj list"

definition new :: "store \<Rightarrow> pyobj \<Rightarrow> store \<times> nat" where
  "new h ob = (h @ [ob], length h)"

definition bind :: "error + 'a \<Rightarrow> ('a \<Rightarrow> error + 'b) \<Rightarrow> error + 'b" where
  "bind m f = (case m of Inl err \<Rightarrow> Inl err | Inr x \<Rightarrow> f x)"

definition get_frame :: "store \<Rightarrow> nat \<Rightarrow> error + dataframe" where
  "get_frame h r = (case h ! r of DataFrame d \<Rightarrow> Inr d | _ \<Rightarrow> Inl AttributeError)"

definition get_series :: "store \<Rightarrow> nat \<Rightarrow> error + series" where
  "get_series h r = (case h ! r of Series s \<Rightarrow> Inr s | _ \<Rightarrow> Inl AttributeError)"

definition get_table :: "store \<Rightarrow> nat \<Rightarrow> error + table" where
  "get_table h r = (case h ! r of Table t \<Rightarrow> Inr t | _ \<Rightarrow> Inl AttributeError)"

definition get_cols :: "store \<Rightarrow> nat \<Rightarrow> error + (nat \<times> label \<times> label) list" where
  "get_cols h r = (case h ! r of LabelCols c \<Rightarrow> Inr c | _ \<Rightarrow> Inl AttributeError)"

definition get_mask :: "store \<Rightarrow> nat \<Rightarrow> error + (nat \<times> bool) list" where
  "get_mask h r = (case h ! r of Mask m \<Rightarrow> Inr m | _ \<Rightarrow> Inl AttributeError)"

text \<open>The in-place statements: the store changes at the reference, and only there.\<close>

definition reset_index_keep_inplace :: "store \<Rightarrow> nat \<Rightarrow> error + store" where
  "reset_index_keep_inplace h r =
     (case h ! r of
        OneColumn f \<Rightarrow> Inr (h[r := Table (reset_index_keep f)])
      | _ \<Rightarrow> Inl AttributeError)"

definition set_columns_inplace :: "store \<Rightarrow> nat \<Rightarrow> colname list \<Rightarrow> error + store" where
  "set_columns_inplace h r cs =
     (case h ! r of
        Table t \<Rightarrow> Inr (h[r := Table (set_columns t cs)])
      | _ \<Rightarrow> Inl AttributeError)"

definition reset_index_drop_inplace :: "store \<Rightarrow> nat \<Rightarrow> error + store" where
  "reset_index_drop_inplace h r =
     (case h ! r of
        Table t \<Rightarrow> Inr (h[r := Table (reset_index_drop t)])
      | _ \<Rightarrow> Inl AttributeError)"

text \<open>
  The function, statement by statement; \<open>corr\<close> is the reference the caller passes, the
  result is the new store and the reference returned.
\<close>

definition unstack_corr_df_store ::
  "(bool \<Rightarrow> series \<Rightarrow> series) \<Rightarrow> store \<Rightarrow> nat \<Rightarrow> bool \<Rightarrow> string option \<Rightarrow> string option
     \<Rightarrow> error + store \<times> nat" where
  "unstack_corr_df_store sort_values h corr ascending col_name_1 col_name_2 =
     bind (get_frame h corr) (\<lambda>d.
     let (h, corr_uns) = new h (Series (unstack d)) in
     bind (get_series h corr_uns) (\<lambda>s.
     let (h, corr_uns_sorted) = new h (Series (sort_values ascending s)) in
     bind (get_series h corr_uns_sorted) (\<lambda>s.
     let (h, df_corr) = new h (OneColumn (to_frame s)) in
     bind (reset_index_keep_inplace h df_corr) (\<lambda>h.
     bind (get_table h df_corr) (\<lambda>t.
     let (h, df_corr) = new h (Table (query_ne t)) in
     bind (get_table h df_corr) (\<lambda>t.
     let (h, df_corr_cols) = new h (LabelCols (label_cols t)) in
     bind (get_cols h df_corr_cols) (\<lambda>c.
     let (h, dup_mask) = new h (Mask (invert (duplicated (astype_str (apply_sorted c))))) in
     bind (get_table h df_corr) (\<lambda>t.
     bind (get_mask h dup_mask) (\<lambda>m.
     let (h, df_corr) = new h (Table (getitem_mask t m)) in
     bind (set_columns_inplace h df_corr
             [name_of col_name_1, name_of col_name_2, Str ''corr'']) (\<lambda>h.
     bind (reset_index_drop_inplace h df_corr) (\<lambda>h.
     Inr (h, df_corr))))))))))))"

subsection \<open>The rows the mask keeps\<close>

text \<open>
  The key of a row is its sorted pair of labels; \<open>keep_first\<close> walks the rows as
  \<open>duplicated\<close> does and keeps a row when its key has not been seen. It is what the
  masking statements compute (lemma \<open>mask_keep_first\<close>).
\<close>

definition pair_key :: "label \<times> label \<times> real \<Rightarrow> label list" where
  "pair_key e = sort [fst e, fst (snd e)]"

fun keep_first ::
  "label list list \<Rightarrow> (nat \<times> label \<times> label \<times> real) list \<Rightarrow> (nat \<times> label \<times> label \<times> real) list" where
  "keep_first seen [] = []"
| "keep_first seen (r # rs) =
     (if pair_key (snd r) \<in> set seen then keep_first (pair_key (snd r) # seen) rs
      else r # keep_first (pair_key (snd r) # seen) rs)"

subsection \<open>An example matrix\<close>

definition example_corr :: dataframe where
  "example_corr =
     \<lparr>df_index = [''A'', ''B'', ''C''], df_columns = [''A'', ''B'', ''C''],
      df_values = [[1, 1 / 2, - 1 / 4], [1 / 2, 1, 3 / 4], [- 1 / 4, 3 / 4, 1]]\<rparr>"

section \<open>Interval grouping: proofs\<close>

lemma wrap64_small [simp]: "wrap64 0 = 0" "wrap64 1 = 1"
  by (simp_all add: wrap64_def)

lemma length_np_diff: "length (np_diff arr) = length arr - 1"
  by (induction arr rule: np_diff.induct) auto

lemma boundaries_strict: "sorted_wrt (<) (boundaries arr)"
proof -
  have "sorted_wrt (<) (map fst (enumerate 0 (np_diff arr)))"
    by (simp add: map_fst_enumerate)
  then have "sorted_wrt (\<lambda>p q. fst p < fst q) (enumerate 0 (np_diff arr))"
    by (simp only: sorted_wrt_map)
  then have "sorted_wrt (\<lambda>p q. fst p < fst q)
               (filter (\<lambda>p. \<not> snd p = 1) (enumerate 0 (np_diff arr)))"
    by (rule sorted_wrt_filter)
  then show ?thesis
    by (simp add: boundaries_def sorted_wrt_map)
qed

lemma boundaries_range: "b \<in> set (boundaries arr) \<Longrightarrow> 0 \<le> b \<and> b < int (length arr) - 1"
  by (auto simp: boundaries_def in_set_enumerate_eq length_np_diff)

lemma np_vstack_T_simps [simp]:
  "np_vstack_T [] = []"
  "np_vstack_T [x] = []"
  "np_vstack_T (x # y # ys) = (x + 1, y) # np_vstack_T (y # ys)"
  by (simp_all add: np_vstack_T_def)

lemma np_vstack_T_fst_gt:
  "sorted_wrt (<) (y # ys) \<Longrightarrow> q \<in> set (np_vstack_T (y # ys)) \<Longrightarrow> y < fst q"
proof (induction ys arbitrary: y)
  case Nil
  then show ?case by simp
next
  case (Cons z zs)
  then show ?case by fastforce
qed

text \<open>
  Pairing up a strictly increasing list of markers \<open>x, \<dots>, l\<close> gives non-empty ranges,
  each ending before the next starts, that together are \<open>x + 1, \<dots>, l\<close>.
\<close>

lemma np_vstack_T_partition:
  assumes "sorted_wrt (<) (x # xs)"
  shows "(\<forall>p \<in> set (np_vstack_T (x # xs)). fst p \<le> snd p)
       \<and> sorted_wrt (\<lambda>p q. snd p < fst q) (np_vstack_T (x # xs))
       \<and> concat (map (\<lambda>p. [fst p..snd p]) (np_vstack_T (x # xs))) = [x + 1..last (x # xs)]"
  using assms
proof (induction xs arbitrary: x)
  case Nil
  then show ?case by simp
next
  case (Cons y ys)
  then have xy: "x < y" and srt: "sorted_wrt (<) (y # ys)" by auto
  from Cons.IH [OF srt] have
    ih1: "\<forall>p \<in> set (np_vstack_T (y # ys)). fst p \<le> snd p" and
    ih2: "sorted_wrt (\<lambda>p q. snd p < fst q) (np_vstack_T (y # ys))" and
    ih3: "concat (map (\<lambda>p. [fst p..snd p]) (np_vstack_T (y # ys))) = [y + 1..last (y # ys)]"
    by auto
  have ylast: "y \<le> last (y # ys)"
    using srt by (cases ys) (auto simp: less_imp_le)
  have gt: "\<forall>q \<in> set (np_vstack_T (y # ys)). y < fst q"
    using np_vstack_T_fst_gt [OF srt] by blast
  have "[x + 1..last (y # ys)] = [x + 1..y] @ [y + 1..last (y # ys)]"
    using xy ylast by (intro upto_split2) auto
  with ih1 ih2 ih3 gt xy show ?case by simp
qed

lemma stacked_strict:
  assumes "arr \<noteq> []"
  shows "sorted_wrt (<) ((- 1) # boundaries arr @ [int (length arr) - 1])"
  using assms boundaries_strict [of arr]
  by (auto simp: sorted_wrt_append dest: boundaries_range)

lemma all_ones_diff:
  "(\<forall>i. Suc i < length arr \<longrightarrow> arr ! Suc i = arr ! i + 1) \<Longrightarrow> d \<in> set (np_diff arr) \<Longrightarrow> d = 1"
proof (induction arr rule: np_diff.induct)
  case (1 x y ys)
  from "1.prems"(1) have h0: "y = x + 1" by (auto dest: spec [of _ 0])
  have "(y # ys) ! Suc i = (y # ys) ! i + 1" if "Suc i < length (y # ys)" for i
  proof -
    from that have "Suc (Suc i) < length (x # y # ys)" by simp
    with "1.prems"(1) have "(x # y # ys) ! Suc (Suc i) = (x # y # ys) ! Suc i + 1" by blast
    then show ?thesis by simp
  qed
  with 1 h0 show ?case by auto
qed simp_all

lemma all_ones_boundaries:
  "(\<forall>i. Suc i < length arr \<longrightarrow> arr ! Suc i = arr ! i + 1) \<Longrightarrow> boundaries arr = []"
proof -
  assume h: "\<forall>i. Suc i < length arr \<longrightarrow> arr ! Suc i = arr ! i + 1"
  have "snd p = 1" if "p \<in> set (enumerate 0 (np_diff arr))" for p
  proof -
    from that have "fst p < length (np_diff arr)" and "np_diff arr ! fst p = snd p"
      by (auto simp: in_set_enumerate_eq)
    then have "snd p \<in> set (np_diff arr)"
      using nth_mem by metis
    then show ?thesis by (rule all_ones_diff [OF h])
  qed
  then show ?thesis
    by (simp add: boundaries_def filter_empty_conv)
qed

text \<open>
  Claim C1. For a sequence of length \<open>N \<ge> 1\<close>, the call with \<open>ret_idx=True\<close> returns
  (start, end) pairs that partition the positions \<open>0, \<dots>, N - 1\<close>: every pair is a
  non-empty inclusive range, each pair ends before the next one starts (disjoint, in
  ascending order), and the ranges written out one after the other are exactly
  \<open>0, 1, \<dots>, N - 1\<close> (every position once, no gap).
\<close>

theorem intervals_partition:
  assumes "arr \<noteq> []"
  shows "\<exists>dt ps. get_consecutive_num_intervals arr True = Inr (BoundIdx dt ps)
           \<and> (\<forall>p \<in> set ps. fst p \<le> snd p)
           \<and> sorted_wrt (\<lambda>p q. snd p < fst q) ps
           \<and> concat (map (\<lambda>p. [fst p..snd p]) ps) = [0..int (length arr) - 1]"
  using np_vstack_T_partition [OF stacked_strict [OF assms]]
  by (simp add: get_consecutive_num_intervals_def np_hstack_def Let_def)

theorem intervals_partition_witness:
  "[1, 2, 4 :: int] \<noteq> []
   \<and> (\<exists>dt ps. get_consecutive_num_intervals [1, 2, 4] True = Inr (BoundIdx dt ps)
           \<and> (\<forall>p \<in> set ps. fst p \<le> snd p)
           \<and> sorted_wrt (\<lambda>p q. snd p < fst q) ps
           \<and> concat (map (\<lambda>p. [fst p..snd p]) ps) = [0..int (length [1, 2, 4 :: int]) - 1])"
proof -
  have ne: "[1, 2, 4 :: int] \<noteq> []" by simp
  from ne intervals_partition [OF ne] show ?thesis by (rule conjI)
qed

text \<open>
  Indexing the empty sequence with the row \<open>(0, -1)\<close> raises, whatever the element type
  of the index array: position 0 is out of range for an integer index, and a
  floating-point index is refused before that.
\<close>

lemma empty_arr_raises:
  "arange_rows [] dt [(0, - 1)] = Inl (if dt = Float64 then NonIntegerIndex else IndexOutOfRange)"
  by (simp add: arange_row_def getitem_def)

text \<open>
  Claim C3, as the code has it. The empty sequence is not treated apart, in either
  module. With \<open>ret_idx=True\<close> the call raises nothing and returns one row, \<open>(0, -1)\<close>,
  not an empty list; with \<open>ret_idx=False\<close> it raises instead of returning an empty list
  of runs.
\<close>

theorem empty_input_behaviour:
  "(\<exists>dt. get_consecutive_num_intervals [] True = Inr (BoundIdx dt [(0, - 1)]))
   \<and> (\<exists>err. get_consecutive_num_intervals [] False = Inl err)
   \<and> (\<exists>dt. get_consecutive_num_intervals_dp [] True = Inr (BoundIdx dt [(0, - 1)]))
   \<and> (\<exists>err. get_consecutive_num_intervals_dp [] False = Inl err)"
  by (simp add: get_consecutive_num_intervals_def get_consecutive_num_intervals_dp_def
      boundaries_def boundaries_dp_def np_hstack_def arange_row_def getitem_def)

text \<open>
  Claim C3 as stated fails: for the empty sequence the result is neither an empty list
  of intervals nor an empty list of runs.
\<close>

theorem empty_input_counterexample:
  "get_consecutive_num_intervals [] True \<noteq> Inr (BoundIdx Float64 [])
   \<and> get_consecutive_num_intervals [] True \<noteq> Inr (BoundIdx Int64 [])
   \<and> get_consecutive_num_intervals [] False \<noteq> Inr (GroupNums [])"
  by (simp add: get_consecutive_num_intervals_def boundaries_def np_hstack_def
      arange_row_def getitem_def)

text \<open>
  Claim C4, amended. When every element is its predecessor plus exactly 1 (and the
  sequence is not empty), the call with \<open>ret_idx=True\<close> returns the single interval
  \<open>(0, N - 1)\<close>.
\<close>

theorem single_run_interval:
  assumes "arr \<noteq> []" and "\<forall>i. Suc i < length arr \<longrightarrow> arr ! Suc i = arr ! i + 1"
  shows "get_consecutive_num_intervals arr True
           = Inr (BoundIdx Float64 [(0, int (length arr) - 1)])"
  using all_ones_boundaries [OF assms(2)]
  by (simp add: get_consecutive_num_intervals_def np_hstack_def)

theorem single_run_interval_witness:
  "get_consecutive_num_intervals [5, 6, 7] True = Inr (BoundIdx Float64 [(0, 2)])"
proof -
  have ne: "[5, 6, 7 :: int] \<noteq> []" by simp
  have step: "\<forall>i. Suc i < length [5, 6, 7 :: int] \<longrightarrow> [5, 6, 7 :: int] ! Suc i = [5, 6, 7] ! i + 1"
    by (simp add: nth_Cons' less_Suc_eq)
  from single_run_interval [OF ne step] show ?thesis by simp
qed

text \<open>
  Claim C4 as stated fails: \<open>[1, 1]\<close> is non-decreasing and its only difference is
  \<open>0 \<le> 1\<close>, yet a difference other than 1 ends a run, and two intervals come back.
\<close>

theorem single_run_counterexample:
  "sorted [1, 1 :: int] \<and> np_diff [1, 1] = [0]
   \<and> get_consecutive_num_intervals [1, 1] True = Inr (BoundIdx Int64 [(0, 0), (1, 1)])"
  by (simp add: get_consecutive_num_intervals_def boundaries_def np_hstack_def)

text \<open>
  With at least one boundary the index array is of integer type, and the runs handed
  to \<open>np.array\<close> for \<open>ret_idx=False\<close> are the pairs returned for \<open>ret_idx=True\<close>, each
  expanded into the range from \<open>arr[s]\<close> to \<open>arr[e]\<close>.
\<close>

lemma arange_rows_int64:
  assumes "\<forall>p \<in> set ps. 0 \<le> fst p \<and> fst p < int (length arr) \<and> 0 \<le> snd p \<and> snd p < int (length arr)"
  shows "arange_rows arr Int64 ps = Inr (map (\<lambda>p. [arr ! nat (fst p)..arr ! nat (snd p)]) ps)"
  using assms by (induction ps) (simp_all add: arange_row_def getitem_def)

lemma covered_in_range:
  assumes "concat (map (\<lambda>p. [fst p..snd p]) ps) = [0..m]"
    and "\<forall>p \<in> set ps. fst p \<le> snd p" and "p \<in> set ps"
  shows "0 \<le> fst p \<and> snd p \<le> m"
proof -
  from assms(2,3) have "fst p \<in> set [fst p..snd p]" "snd p \<in> set [fst p..snd p]" by auto
  with assms(3) have "fst p \<in> set (concat (map (\<lambda>p. [fst p..snd p]) ps))"
    and "snd p \<in> set (concat (map (\<lambda>p. [fst p..snd p]) ps))"
    by (auto simp del: set_upto)
  then show ?thesis unfolding assms(1) by simp
qed

lemma runs_from_pairs:
  assumes "boundaries arr \<noteq> []"
  shows "\<exists>ps. get_consecutive_num_intervals arr True = Inr (BoundIdx Int64 ps)
           \<and> get_consecutive_num_intervals arr False
               = (case np_array (map (\<lambda>p. [arr ! nat (fst p)..arr ! nat (snd p)]) ps) of
                    Inl err \<Rightarrow> Inl err
                  | Inr a \<Rightarrow> Inr (GroupNums a))"
proof -
  let ?ps = "np_vstack_T ((- 1) # boundaries arr @ [int (length arr) - 1])"
  from assms have ne: "arr \<noteq> []"
    by (auto simp: boundaries_def)
  from np_vstack_T_partition [OF stacked_strict [OF ne]] have
    le: "\<forall>p \<in> set ?ps. fst p \<le> snd p" and
    cover: "concat (map (\<lambda>p. [fst p..snd p]) ?ps) = [0..int (length arr) - 1]"
    by simp_all
  have "\<forall>p \<in> set ?ps. 0 \<le> fst p \<and> fst p < int (length arr) \<and> 0 \<le> snd p \<and> snd p < int (length arr)"
  proof
    fix p assume p: "p \<in> set ?ps"
    from covered_in_range [OF cover le p] le p show
      "0 \<le> fst p \<and> fst p < int (length arr) \<and> 0 \<le> snd p \<and> snd p < int (length arr)"
      by fastforce
  qed
  then have "arange_rows arr Int64 ?ps = Inr (map (\<lambda>p. [arr ! nat (fst p)..arr ! nat (snd p)]) ?ps)"
    by (rule arange_rows_int64)
  with assms show ?thesis
    by (simp add: get_consecutive_num_intervals_def np_hstack_def Let_def)
qed

lemma equal_runs_example:
  "get_consecutive_num_intervals [1, 2, 5, 6] False = Inr (GroupNums [[1, 2], [5, 6]])"
  by code_simp

text \<open>
  Claim C7 at a sequence that is one run. \<open>[1, 2, 3]\<close> has no boundary, so the list of
  boundaries is empty and the index array is floating-point: with \<open>ret_idx=True\<close> the
  call returns the row \<open>(0, 2)\<close>, with \<open>ret_idx=False\<close> it raises instead of returning
  the run \<open>[1, 2, 3]\<close>.
\<close>

theorem single_run_values_raise:
  "get_consecutive_num_intervals [1, 2, 3] True = Inr (BoundIdx Float64 [(0, 2)])
   \<and> get_consecutive_num_intervals [1, 2, 3] False = Inl NonIntegerIndex"
  by (simp add: get_consecutive_num_intervals_def boundaries_def np_hstack_def
      arange_row_def getitem_def)

text \<open>
  Claim C8 at the docstring's input \<open>[2,3,4,5,12,13,14,15,16,17,20]\<close>. With
  \<open>ret_idx=True\<close> the call returns the intervals \<open>[[0,3],[4,9],[10,10]]\<close>. With
  \<open>ret_idx=False\<close> the three runs \<open>[2,3,4,5]\<close>, \<open>[12,13,14,15,16,17]\<close>, \<open>[20]\<close> are
  computed, but they have different lengths and \<open>np.array\<close> refuses them: the call
  raises instead of returning the runs.
\<close>

theorem docstring_values_raise:
  "get_consecutive_num_intervals [2, 3, 4, 5, 12, 13, 14, 15, 16, 17, 20] True
     = Inr (BoundIdx Int64 [(0, 3), (4, 9), (10, 10)])
   \<and> arange_rows [2, 3, 4, 5, 12, 13, 14, 15, 16, 17, 20] Int64 [(0, 3), (4, 9), (10, 10)]
     = Inr [[2, 3, 4, 5], [12, 13, 14, 15, 16, 17], [20]]
   \<and> get_consecutive_num_intervals [2, 3, 4, 5, 12, 13, 14, 15, 16, 17, 20] False
     = Inl ValueError"
  by code_simp

text \<open>
  Claim C10. The definition in \<^verbatim>\<open>data_proc_utils.py\<close> and the one in
  \<^verbatim>\<open>math_utils.py\<close> return the same result on every sequence and every \<open>ret_idx\<close>.
\<close>

theorem duplicate_definitions_equal:
  "get_consecutive_num_intervals_dp arr ret_idx = get_consecutive_num_intervals arr ret_idx"
  by (simp add: get_consecutive_num_intervals_dp_def get_consecutive_num_intervals_def
      boundaries_dp_def boundaries_def)

section \<open>Correlation unstacking: proofs\<close>

subsection \<open>The returned rows\<close>

lemma mask_keep_first:
  "map fst (filter (\<lambda>rm. snd (snd rm))
     (zip rs (invert (duplicated_from seen (astype_str (apply_sorted
        (map (\<lambda>r. (fst r, fst (snd r), fst (snd (snd r)))) rs))))))) = keep_first seen rs"
  by (induction rs arbitrary: seen)
     (simp_all add: invert_def astype_str_def apply_sorted_def pair_key_def)

lemma keep_first_keys:
  "set (map (\<lambda>r. pair_key (snd r)) (keep_first seen rs)) = set (map (\<lambda>r. pair_key (snd r)) rs) - set seen"
  by (induction rs arbitrary: seen) auto

lemma keep_first_distinct:
  "distinct (map (\<lambda>r. pair_key (snd r)) (keep_first seen rs))"
  by (induction rs arbitrary: seen) (auto simp: keep_first_keys simp del: set_map)

lemma keep_first_subset: "set (keep_first seen rs) \<subseteq> set rs"
  by (induction rs arbitrary: seen) auto

lemma keep_first_sorted:
  "sorted_wrt P rs \<Longrightarrow> sorted_wrt P (keep_first seen rs)"
proof (induction rs arbitrary: seen)
  case Nil
  then show ?case by simp
next
  case (Cons r rs)
  then show ?case
    using keep_first_subset [of "pair_key (snd r) # seen" rs] by auto
qed

lemma map_of_snd_enumerate: "map (\<lambda>x. f (snd x)) (enumerate n xs) = map f xs"
  by (induction xs arbitrary: n) simp_all

lemma edges_unstack_corr_df:
  "edges (unstack_corr_df srt corr asc c1 c2) =
     map snd (keep_first []
       (filter (\<lambda>r. fst (snd r) \<noteq> fst (snd (snd r)))
          (map (\<lambda>ie. (fst ie, fst (fst (snd ie)), snd (fst (snd ie)), snd (snd ie)))
             (enumerate 0 (srt asc (unstack corr))))))"
  by (simp add: edges_def unstack_corr_df_def reset_index_drop_def set_columns_def
      getitem_mask_def duplicated_def label_cols_def query_ne_def reset_index_keep_def
      to_frame_def mask_keep_first Let_def comp_def map_of_snd_enumerate)

lemma sorted_rows:
  assumes "sorted_wrt (\<lambda>a b. P (snd a) (snd b)) s"
  shows "sorted_wrt (\<lambda>x y. P (snd (snd (snd x))) (snd (snd (snd y))))
           (map (\<lambda>ie. (fst ie, fst (fst (snd ie)), snd (fst (snd ie)), snd (snd ie)))
             (enumerate (0::nat) s))"
proof -
  have "sorted_wrt (\<lambda>x y. P (snd (snd x)) (snd (snd y))) (enumerate 0 s)
      = sorted_wrt (\<lambda>a b. P (snd a) (snd b)) (map snd (enumerate 0 s))"
    by (simp only: sorted_wrt_map)
  with assms show ?thesis
    by (simp add: sorted_wrt_map)
qed

lemma edges_in_order:
  assumes "sorts_values srt"
  shows "sorted_wrt (\<lambda>x y. in_order asc (snd (snd x)) (snd (snd y)))
           (edges (unstack_corr_df srt corr asc c1 c2))"
proof -
  from assms have "sorted_wrt (\<lambda>a b. in_order asc (snd a) (snd b)) (srt asc (unstack corr))"
    by (simp add: sorts_values_def)
  then have "sorted_wrt (\<lambda>x y. in_order asc (snd (snd (snd x))) (snd (snd (snd y))))
           (map (\<lambda>ie. (fst ie, fst (fst (snd ie)), snd (fst (snd ie)), snd (snd ie)))
             (enumerate 0 (srt asc (unstack corr))))"
    by (rule sorted_rows)
  then have "sorted_wrt (\<lambda>x y. in_order asc (snd (snd (snd x))) (snd (snd (snd y))))
           (keep_first [] (filter (\<lambda>r. fst (snd r) \<noteq> fst (snd (snd r)))
           (map (\<lambda>ie. (fst ie, fst (fst (snd ie)), snd (fst (snd ie)), snd (snd ie)))
             (enumerate 0 (srt asc (unstack corr))))))"
    by (intro keep_first_sorted sorted_wrt_filter)
  then show ?thesis
    by (simp add: edges_unstack_corr_df sorted_wrt_map)
qed

lemma sort_values_stable_ok: "sorts_values sort_values_stable"
proof -
  have "sorted_wrt (\<lambda>a b. in_order asc (snd a) (snd b)) (sort_values_stable asc s)" for asc s
  proof (cases asc)
    case True
    have "sorted (map snd (sort_key snd s))" by (rule sorted_sort_key)
    then show ?thesis using True
      by (simp add: sort_values_stable_def in_order_def sorted_wrt_map)
  next
    case False
    have "sorted (map snd (sort_key snd s))" by (rule sorted_sort_key)
    then have "sorted_wrt (\<lambda>a b. snd a \<le> snd b) (sort_key snd s)"
      by (simp add: sorted_wrt_map)
    then have "sorted_wrt (\<lambda>a b. snd b \<le> snd a) (rev (sort_key snd s))"
      by (simp add: sorted_wrt_rev)
    then show ?thesis using False
      by (simp add: sort_values_stable_def in_order_def)
  qed
  then show ?thesis
    by (simp add: sorts_values_def sort_values_stable_def)
qed

lemma example_corr_ok: "corr_matrix example_corr"
  by code_simp

lemma example_edges:
  "edges (unstack_corr_df sort_values_stable example_corr False None None)
     = [(''C'', ''B'', 3 / 4), (''B'', ''A'', 1 / 2), (''C'', ''A'', - 1 / 4)]"
  by code_simp

text \<open>
  Claim C5. Whatever the matrix, the rows of the returned table are ordered by the
  correlation column: non-decreasing when \<open>ascending=True\<close>, non-increasing when
  \<open>ascending=False\<close>. (Entries are real numbers: no NaN.)
\<close>

theorem edges_sorted:
  assumes "sorts_values srt"
  shows "sorted_wrt (\<lambda>x y. snd (snd x) \<le> snd (snd y)) (edges (unstack_corr_df srt corr True c1 c2))
       \<and> sorted_wrt (\<lambda>x y. snd (snd y) \<le> snd (snd x)) (edges (unstack_corr_df srt corr False c1 c2))"
  using edges_in_order [OF assms, of True corr c1 c2] edges_in_order [OF assms, of False corr c1 c2]
  by (simp add: in_order_def)

theorem edges_sorted_witness:
  "sorts_values sort_values_stable
   \<and> sorted_wrt (\<lambda>x y. snd (snd x) \<le> snd (snd y))
        (edges (unstack_corr_df sort_values_stable example_corr True None None))
   \<and> sorted_wrt (\<lambda>x y. snd (snd y) \<le> snd (snd x))
        (edges (unstack_corr_df sort_values_stable example_corr False None None))"
  using sort_values_stable_ok edges_sorted [OF sort_values_stable_ok] by (rule conjI)

subsection \<open>Values come from the matrix\<close>

lemma unstack_mem:
  "((c, r), v) \<in> set (unstack corr) \<longleftrightarrow>
     (\<exists>i j. j < length (df_columns corr) \<and> i < length (df_index corr)
        \<and> c = df_columns corr ! j \<and> r = df_index corr ! i \<and> v = df_values corr ! i ! j)"
proof
  assume "((c, r), v) \<in> set (unstack corr)"
  then obtain jc ir where "jc \<in> set (enumerate 0 (df_columns corr))"
    and "ir \<in> set (enumerate 0 (df_index corr))"
    and "c = snd jc" and "r = snd ir" and "v = df_values corr ! fst ir ! fst jc"
    by (auto simp: unstack_def)
  then have "fst jc < length (df_columns corr) \<and> fst ir < length (df_index corr)
        \<and> c = df_columns corr ! fst jc \<and> r = df_index corr ! fst ir
        \<and> v = df_values corr ! fst ir ! fst jc"
    by (auto simp: in_set_enumerate_eq)
  then show "\<exists>i j. j < length (df_columns corr) \<and> i < length (df_index corr)
        \<and> c = df_columns corr ! j \<and> r = df_index corr ! i \<and> v = df_values corr ! i ! j"
    by blast
next
  assume "\<exists>i j. j < length (df_columns corr) \<and> i < length (df_index corr)
        \<and> c = df_columns corr ! j \<and> r = df_index corr ! i \<and> v = df_values corr ! i ! j"
  then obtain i j where j: "j < length (df_columns corr)" and i: "i < length (df_index corr)"
    and eqs: "c = df_columns corr ! j" "r = df_index corr ! i" "v = df_values corr ! i ! j"
    by blast
  from j have "(j, df_columns corr ! j) \<in> set (enumerate 0 (df_columns corr))"
    by (simp add: in_set_enumerate_eq)
  moreover from i have "(i, df_index corr ! i) \<in> set (enumerate 0 (df_index corr))"
    by (simp add: in_set_enumerate_eq)
  ultimately show "((c, r), v) \<in> set (unstack corr)"
    unfolding unstack_def using eqs by force
qed

lemma position_nth:
  "distinct xs \<Longrightarrow> i < length xs \<Longrightarrow> position (xs ! i) xs = Some i"
proof (induction xs arbitrary: i)
  case Nil
  then show ?case by simp
next
  case (Cons x xs)
  then show ?case by (cases i) auto
qed

lemma entry_nth:
  assumes "distinct (df_columns corr)" and "distinct (df_index corr)"
    and "j < length (df_columns corr)" and "i < length (df_index corr)"
  shows "entry corr (df_columns corr ! j) (df_index corr ! i) = Some (df_values corr ! i ! j)"
  using assms by (simp add: entry_def position_nth)

lemma symmetric_nth:
  assumes "symmetric d" and "i < length (df_columns d)" and "j < length (df_columns d)"
  shows "df_values d ! i ! j = df_values d ! j ! i"
  using assms by (simp add: symmetric_def list_all_iff)

lemma rows_mem:
  "r \<in> set (filter (\<lambda>r. fst (snd r) \<noteq> fst (snd (snd r)))
          (map (\<lambda>ie. (fst ie, fst (fst (snd ie)), snd (fst (snd ie)), snd (snd ie)))
             (enumerate 0 s)))
   \<Longrightarrow> ((fst (snd r), fst (snd (snd r))), snd (snd (snd r))) \<in> set s \<and> fst (snd r) \<noteq> fst (snd (snd r))"
  by (auto simp: in_set_enumerate_eq) (metis nth_mem)

lemma sorts_values_set: "sorts_values srt \<Longrightarrow> set (srt asc s) = set s"
  by (metis sorts_values_def set_mset_mset)

lemma edges_mem:
  assumes "sorts_values srt" and "e \<in> set (edges (unstack_corr_df srt corr asc c1 c2))"
  shows "((fst e, fst (snd e)), snd (snd e)) \<in> set (unstack corr) \<and> fst e \<noteq> fst (snd e)"
proof -
  from assms(2) obtain r where
    "r \<in> set (keep_first []
       (filter (\<lambda>r. fst (snd r) \<noteq> fst (snd (snd r)))
          (map (\<lambda>ie. (fst ie, fst (fst (snd ie)), snd (fst (snd ie)), snd (snd ie)))
             (enumerate 0 (srt asc (unstack corr))))))" and e: "e = snd r"
    by (auto simp: edges_unstack_corr_df)
  then have "r \<in> set (filter (\<lambda>r. fst (snd r) \<noteq> fst (snd (snd r)))
          (map (\<lambda>ie. (fst ie, fst (fst (snd ie)), snd (fst (snd ie)), snd (snd ie)))
             (enumerate 0 (srt asc (unstack corr)))))"
    using keep_first_subset by blast
  from rows_mem [OF this] e show ?thesis
    by (simp add: sorts_values_set [OF assms(1)])
qed

text \<open>
  Claim C6. For a symmetric matrix with distinct labels, every row \<open>(a, b, v)\<close> of the
  returned table carries the matrix entry: \<open>v\<close> is \<open>corr[a][b]\<close>, and also \<open>corr[b][a]\<close>.
  No value is made up and none is changed.
\<close>

theorem edges_roundtrip:
  assumes "sorts_values srt" and "corr_matrix corr"
    and "(a, b, v) \<in> set (edges (unstack_corr_df srt corr asc c1 c2))"
  shows "entry corr a b = Some v \<and> entry corr b a = Some v"
proof -
  from edges_mem [OF assms(1,3)] have "((a, b), v) \<in> set (unstack corr)" by simp
  then obtain i j where j: "j < length (df_columns corr)" and i: "i < length (df_index corr)"
    and a: "a = df_columns corr ! j" and b: "b = df_index corr ! i"
    and v: "v = df_values corr ! i ! j"
    by (auto simp: unstack_mem)
  from assms(2) have dist: "distinct (df_columns corr)" and idx: "df_index corr = df_columns corr"
    and sym: "symmetric corr"
    by (simp_all add: corr_matrix_def symmetric_def)
  have "entry corr a b = Some v"
    using entry_nth [of corr j i] dist idx i j a b v by simp
  moreover have "entry corr b a = Some (df_values corr ! j ! i)"
    using entry_nth [of corr i j] dist idx i j a b by simp
  moreover have "df_values corr ! j ! i = v"
    using symmetric_nth [OF sym, of j i] i j idx v by simp
  ultimately show ?thesis by simp
qed

theorem edges_roundtrip_witness:
  "sorts_values sort_values_stable \<and> corr_matrix example_corr
   \<and> (''C'', ''B'', 3 / 4) \<in> set (edges (unstack_corr_df sort_values_stable example_corr False None None))
   \<and> entry example_corr ''C'' ''B'' = Some (3 / 4)
   \<and> entry example_corr ''B'' ''C'' = Some (3 / 4)"
proof -
  have mem: "(''C'', ''B'', 3 / 4)
      \<in> set (edges (unstack_corr_df sort_values_stable example_corr False None None))"
    by (simp only: example_edges) simp
  from edges_roundtrip [OF sort_values_stable_ok example_corr_ok mem]
  have "entry example_corr ''C'' ''B'' = Some (3 / 4)"
    and "entry example_corr ''B'' ''C'' = Some (3 / 4)"
    by (rule conjunct1, rule conjunct2)
  with sort_values_stable_ok example_corr_ok mem show ?thesis by (intro conjI)
qed

subsection \<open>Counting the rows\<close>

lemma card_less_pairs:
  fixes S :: "'a::linorder set"
  assumes "finite S"
  shows "2 * card {(a, b). a \<in> S \<and> b \<in> S \<and> a < b} = card S * (card S - 1)"
proof -
  let ?A = "{(a, b). a \<in> S \<and> b \<in> S \<and> a < b}"
  let ?B = "{(a, b). a \<in> S \<and> b \<in> S \<and> b < a}"
  let ?D = "{(a, b). a \<in> S \<and> b \<in> S \<and> a = b}"
  have fin: "finite ?A" "finite ?B" "finite ?D"
    using assms by (auto intro: finite_subset [of _ "S \<times> S"])
  have "?B = prod.swap ` ?A" by force
  then have cB: "card ?B = card ?A"
    by (simp add: card_image)
  have "?D = (\<lambda>a. (a, a)) ` S" by force
  then have cD: "card ?D = card S"
    by (simp add: card_image inj_on_def)
  have "S \<times> S = ?A \<union> ?B \<union> ?D" by force
  moreover have "?A \<inter> ?B = {}" "(?A \<union> ?B) \<inter> ?D = {}" by auto
  ultimately have "card (S \<times> S) = card ?A + card ?B + card ?D"
    using fin by (simp add: card_Un_disjoint)
  then have "card S * card S = 2 * card ?A + card S"
    using cB cD by (simp add: card_cartesian_product)
  then show ?thesis
    by (cases "card S") (simp_all add: algebra_simps)
qed

lemma sort_two: "sort [a, b] = (if a \<le> b then [a, b] else [b, a])"
  by simp

lemma card_pair_keys:
  fixes S :: "'a::linorder set"
  assumes "finite S"
  shows "card {sort [a, b] | a b. a \<in> S \<and> b \<in> S \<and> a \<noteq> b} = card S * (card S - 1) div 2"
proof -
  let ?A = "{(a, b). a \<in> S \<and> b \<in> S \<and> a < b}"
  have "{sort [a, b] | a b. a \<in> S \<and> b \<in> S \<and> a \<noteq> b} = (\<lambda>p. [fst p, snd p]) ` ?A"
  proof (intro set_eqI iffI)
    fix k assume "k \<in> {sort [a, b] | a b. a \<in> S \<and> b \<in> S \<and> a \<noteq> b}"
    then obtain a b where ab: "a \<in> S" "b \<in> S" "a \<noteq> b" and k: "k = sort [a, b]" by blast
    show "k \<in> (\<lambda>p. [fst p, snd p]) ` ?A"
    proof (cases "a < b")
      case True
      with ab k have "(a, b) \<in> ?A" "k = [fst (a, b), snd (a, b)]" by auto
      then show ?thesis by (rule_tac image_eqI)
    next
      case False
      with ab k have "(b, a) \<in> ?A" "k = [fst (b, a), snd (b, a)]" by auto
      then show ?thesis by (rule_tac image_eqI)
    qed
  next
    fix k assume "k \<in> (\<lambda>p. [fst p, snd p]) ` ?A"
    then obtain a b where "a \<in> S" "b \<in> S" "a < b" "k = [a, b]" by auto
    then have "k = sort [a, b] \<and> a \<in> S \<and> b \<in> S \<and> a \<noteq> b" by auto
    then show "k \<in> {sort [a, b] | a b. a \<in> S \<and> b \<in> S \<and> a \<noteq> b}" by blast
  qed
  moreover have "inj_on (\<lambda>p. [fst p, snd p]) ?A"
    by (auto simp: inj_on_def)
  ultimately have "card {sort [a, b] | a b. a \<in> S \<and> b \<in> S \<and> a \<noteq> b} = card ?A"
    by (simp add: card_image)
  with card_less_pairs [OF assms] show ?thesis by simp
qed

lemma rows_keys:
  "(\<lambda>r. pair_key (snd r)) ` set (filter (\<lambda>r. fst (snd r) \<noteq> fst (snd (snd r)))
          (map (\<lambda>ie. (fst ie, fst (fst (snd ie)), snd (fst (snd ie)), snd (snd ie)))
             (enumerate 0 s)))
   = {sort [a, b] | a b. (\<exists>v. ((a, b), v) \<in> set s) \<and> a \<noteq> b}" (is "?L = ?R")
proof (intro set_eqI iffI)
  fix k assume "k \<in> ?L"
  then obtain r where r: "r \<in> set (filter (\<lambda>r. fst (snd r) \<noteq> fst (snd (snd r)))
          (map (\<lambda>ie. (fst ie, fst (fst (snd ie)), snd (fst (snd ie)), snd (snd ie)))
             (enumerate 0 s)))" and k: "k = pair_key (snd r)"
    by blast
  from rows_mem [OF r] k show "k \<in> ?R"
    unfolding pair_key_def by auto
next
  fix k assume "k \<in> ?R"
  then obtain a b v where m: "((a, b), v) \<in> set s" and ne: "a \<noteq> b" and k: "k = sort [a, b]"
    by blast
  from m obtain i where i: "i < length s" "s ! i = ((a, b), v)"
    by (auto simp: in_set_conv_nth)
  then have "(i, (a, b), v) \<in> set (enumerate 0 s)"
    by (simp add: in_set_enumerate_eq)
  then have "(i, a, b, v) \<in> (\<lambda>ie. (fst ie, fst (fst (snd ie)), snd (fst (snd ie)), snd (snd ie)))
      ` set (enumerate 0 s)"
    by force
  with ne have "(i, a, b, v) \<in> set (filter (\<lambda>r. fst (snd r) \<noteq> fst (snd (snd r)))
          (map (\<lambda>ie. (fst ie, fst (fst (snd ie)), snd (fst (snd ie)), snd (snd ie)))
             (enumerate 0 s)))"
    by simp
  moreover have "k = pair_key (snd (i, a, b, v))"
    using k by (simp add: pair_key_def)
  ultimately show "k \<in> ?L" by blast
qed

lemma unstack_labels:
  "(\<exists>v. ((a, b), v) \<in> set (unstack corr)) \<longleftrightarrow> a \<in> set (df_columns corr) \<and> b \<in> set (df_index corr)"
proof -
  have "(\<exists>v. ((a, b), v) \<in> set (unstack corr)) \<longleftrightarrow>
      (\<exists>i j. j < length (df_columns corr) \<and> i < length (df_index corr)
         \<and> a = df_columns corr ! j \<and> b = df_index corr ! i)"
    unfolding unstack_mem by blast
  also have "\<dots> \<longleftrightarrow> a \<in> set (df_columns corr) \<and> b \<in> set (df_index corr)"
    unfolding in_set_conv_nth by blast
  finally show ?thesis .
qed

lemma distinct_map_coarser:
  assumes "distinct (map f xs)" and "\<And>x y. g x = g y \<Longrightarrow> f x = f y"
  shows "distinct (map g xs)"
proof -
  from assms(1) have d: "distinct xs" and inj: "inj_on f (set xs)"
    by (simp_all only: distinct_map)
  have "inj_on g (set xs)"
  proof (rule inj_onI)
    fix x y assume x: "x \<in> set xs" and y: "y \<in> set xs" and g: "g x = g y"
    from g have "f x = f y" by (rule assms(2))
    from inj this x y show "x = y" by (rule inj_onD)
  qed
  with d show ?thesis by (simp only: distinct_map simp_thms)
qed

lemma pair_key_doubleton:
  assumes "{fst x, fst (snd x)} = {fst y, fst (snd y)}"
  shows "pair_key x = pair_key y"
  using assms by (auto simp: pair_key_def doubleton_eq_iff)

text \<open>
  Claim C2. For a symmetric matrix with \<open>N\<close> distinct labels (and real entries, so no
  NaN), the returned table has exactly \<open>N * (N - 1) / 2\<close> rows, no row has the same
  label twice, and no two rows have the same unordered pair of labels.
\<close>

theorem edge_count:
  assumes "sorts_values srt" and "corr_matrix corr"
  shows "length (edges (unstack_corr_df srt corr asc c1 c2))
           = length (df_columns corr) * (length (df_columns corr) - 1) div 2
       \<and> (\<forall>e \<in> set (edges (unstack_corr_df srt corr asc c1 c2)). fst e \<noteq> fst (snd e))
       \<and> distinct (map (\<lambda>e. {fst e, fst (snd e)}) (edges (unstack_corr_df srt corr asc c1 c2)))"
proof -
  let ?R = "filter (\<lambda>r. fst (snd r) \<noteq> fst (snd (snd r)))
          (map (\<lambda>ie. (fst ie, fst (fst (snd ie)), snd (fst (snd ie)), snd (snd ie)))
             (enumerate 0 (srt asc (unstack corr))))"
  let ?K = "keep_first [] ?R"
  let ?L = "set (df_columns corr)"
  from assms(2) have dist: "distinct (df_columns corr)" and idx: "df_index corr = df_columns corr"
    by (simp_all add: corr_matrix_def symmetric_def)
  have edges: "edges (unstack_corr_df srt corr asc c1 c2) = map snd ?K"
    by (rule edges_unstack_corr_df)
  have dk: "distinct (map (\<lambda>r. pair_key (snd r)) ?K)"
    by (rule keep_first_distinct)
  have "set (map (\<lambda>r. pair_key (snd r)) ?K) = (\<lambda>r. pair_key (snd r)) ` set ?R"
    using keep_first_keys [of "[]" ?R] by (simp only: set_map list.set Diff_empty)
  also have "\<dots> = {sort [a, b] | a b. (\<exists>v. ((a, b), v) \<in> set (srt asc (unstack corr))) \<and> a \<noteq> b}"
    by (rule rows_keys)
  also have "\<dots> = {sort [a, b] | a b. a \<in> ?L \<and> b \<in> ?L \<and> a \<noteq> b}"
    by (simp only: sorts_values_set [OF assms(1)] unstack_labels idx conj_assoc)
  finally have keys: "set (map (\<lambda>r. pair_key (snd r)) ?K)
      = {sort [a, b] | a b. a \<in> ?L \<and> b \<in> ?L \<and> a \<noteq> b}" .
  have ck: "card (set (map (\<lambda>r. pair_key (snd r)) ?K)) = card ?L * (card ?L - 1) div 2"
    unfolding keys by (rule card_pair_keys) (rule finite_set)
  have "length (edges (unstack_corr_df srt corr asc c1 c2)) = length ?K"
    by (simp only: edges length_map)
  also have "\<dots> = card (set (map (\<lambda>r. pair_key (snd r)) ?K))"
    using distinct_card [OF dk] by (simp only: length_map)
  also have "\<dots> = card ?L * (card ?L - 1) div 2"
    by (rule ck)
  also have "\<dots> = length (df_columns corr) * (length (df_columns corr) - 1) div 2"
    by (simp only: distinct_card [OF dist])
  finally have len: "length (edges (unstack_corr_df srt corr asc c1 c2))
      = length (df_columns corr) * (length (df_columns corr) - 1) div 2" .
  have ne: "\<forall>e \<in> set (edges (unstack_corr_df srt corr asc c1 c2)). fst e \<noteq> fst (snd e)"
  proof
    fix e assume "e \<in> set (edges (unstack_corr_df srt corr asc c1 c2))"
    from edges_mem [OF assms(1) this] show "fst e \<noteq> fst (snd e)" by (rule conjunct2)
  qed
  from dk have "distinct (map pair_key (map snd ?K))"
    by (simp only: map_map comp_def)
  then have "distinct (map (\<lambda>e. {fst e, fst (snd e)}) (map snd ?K))"
    by (rule distinct_map_coarser) (rule pair_key_doubleton)
  then have dd: "distinct (map (\<lambda>e. {fst e, fst (snd e)}) (edges (unstack_corr_df srt corr asc c1 c2)))"
    by (simp only: edges)
  from len ne dd show ?thesis by (intro conjI)
qed

theorem edge_count_witness:
  "sorts_values sort_values_stable \<and> corr_matrix example_corr
   \<and> length (edges (unstack_corr_df sort_values_stable example_corr False None None)) = 3"
proof -
  have n: "length (df_columns example_corr) = 3"
    by (simp add: example_corr_def)
  from edge_count [OF sort_values_stable_ok example_corr_ok, of False None None]
  have "length (edges (unstack_corr_df sort_values_stable example_corr False None None))
      = length (df_columns example_corr) * (length (df_columns example_corr) - 1) div 2"
    by (rule conjunct1)
  then have "length (edges (unstack_corr_df sort_values_stable example_corr False None None)) = 3"
    unfolding n by simp
  with sort_values_stable_ok example_corr_ok show ?thesis by (intro conjI)
qed

subsection \<open>The caller's matrix\<close>

lemma store_run:
  assumes "corr < length h" and "h ! corr = DataFrame d"
  shows "\<exists>h'. unstack_corr_df_store srt h corr asc c1 c2 = Inr (h', length h + 6)
            \<and> take (length h) h' = h
            \<and> h' ! (length h + 6) = Table (unstack_corr_df srt d asc c1 c2)"
  using assms
  by (simp add: unstack_corr_df_store_def unstack_corr_df_def bind_def new_def get_frame_def
      get_series_def get_table_def get_cols_def get_mask_def reset_index_keep_inplace_def
      set_columns_inplace_def reset_index_drop_inplace_def nth_append Let_def)

text \<open>
  Claim C9. The call does not change its input: when \<open>corr\<close> refers to a matrix \<open>d\<close> in
  the store, the call returns, every object that was in the store before is unchanged
  after it, \<open>corr\<close> still refers to \<open>d\<close>, and the reference returned holds the table
  computed from \<open>d\<close>.
\<close>

theorem input_not_mutated:
  assumes "corr < length h" and "h ! corr = DataFrame d"
  shows "\<exists>h' r. unstack_corr_df_store srt h corr asc c1 c2 = Inr (h', r)
            \<and> take (length h) h' = h
            \<and> h' ! corr = DataFrame d
            \<and> h' ! r = Table (unstack_corr_df srt d asc c1 c2)"
proof -
  from store_run [OF assms] obtain h' where
    run: "unstack_corr_df_store srt h corr asc c1 c2 = Inr (h', length h + 6)" and
    frame: "take (length h) h' = h" and
    res: "h' ! (length h + 6) = Table (unstack_corr_df srt d asc c1 c2)"
    by blast
  from frame assms have "h' ! corr = DataFrame d"
    by (metis nth_take)
  with run frame res show ?thesis by blast
qed

theorem input_not_mutated_witness:
  "\<exists>h' r. unstack_corr_df_store sort_values_stable [DataFrame example_corr] 0 False None None
              = Inr (h', r)
            \<and> take (length [DataFrame example_corr]) h' = [DataFrame example_corr]
            \<and> h' ! 0 = DataFrame example_corr
            \<and> h' ! r = Table (unstack_corr_df sort_values_stable example_corr False None None)"
proof -
  have a: "0 < length [DataFrame example_corr]" by simp
  have b: "[DataFrame example_corr] ! 0 = DataFrame example_corr" by simp
  from input_not_mutated [OF a b] show ?thesis .
qed

end
